theory Spec2Isabelle
  imports Main "HOL-Library.Multiset"
begin

section \<open>JavaScript values, strings and errors\<close>

text \<open>
  The values the program handles come out of \<^verbatim>\<open>JSON.parse\<close> or are the literal
  \<^verbatim>\<open>null\<close>. The program does four things with such a value: it compares it with a
  string literal by \<^verbatim>\<open>===\<close>, it tests its truthiness, it hands it to
  \<^verbatim>\<open>path.join\<close> (which throws unless it is a string) and it hands it to
  \<^verbatim>\<open>String.prototype.includes\<close> (which converts it with ToString). A value that
  is neither undefined, null nor a string (a boolean, a number, an array, an object) is
  therefore represented by its truthiness and its ToString rendering.
  Strings are lists of code units; \<^typ>\<open>string\<close> stands for them.
\<close>

datatype jsval = JUndefined | JNull | JStr string | JOther bool string

fun truthy :: "jsval \<Rightarrow> bool" where
  "truthy JUndefined = False"
| "truthy JNull = False"
| "truthy (JStr s) = (s \<noteq> [])"
| "truthy (JOther t s) = t"

fun to_string :: "jsval \<Rightarrow> string" where
  "to_string JUndefined = ''undefined''"
| "to_string JNull = ''null''"
| "to_string (JStr s) = s"
| "to_string (JOther t s) = s"

text \<open>\<^verbatim>\<open>s.endsWith(e)\<close> and \<^verbatim>\<open>s.includes(d)\<close> on strings.\<close>

definition endsWith :: "string \<Rightarrow> string \<Rightarrow> bool" where
  "endsWith s e = (length e \<le> length s \<and> drop (length s - length e) s = e)"

fun str_includes :: "string \<Rightarrow> string \<Rightarrow> bool" where
  "str_includes [] d = (d = [])"
| "str_includes (c # cs) d = (take (length d) (c # cs) = d \<or> str_includes cs d)"

text \<open>An exception is a value: its class and its message.\<close>

datatype js_error = SyntaxError string | TypeError string | SystemError string

fun error_message :: "js_error \<Rightarrow> string" where
  "error_message (SyntaxError m) = m"
| "error_message (TypeError m) = m"
| "error_message (SystemError m) = m"

section \<open>The host: file system, archiver and child processes\<close>

text \<open>
  Everything the program asks of Node and of the operating system is a field of the host:
  \<^verbatim>\<open>fs.existsSync\<close>, \<^verbatim>\<open>fs.readdirSync\<close> and \<^verbatim>\<open>fs.readFileSync\<close> (which
  throw), the outcome of \<^verbatim>\<open>archive.finalize()\<close> on the entries given to the archive
  (\<open>Some e\<close> when the promise rejects), \<^verbatim>\<open>path.dirname\<close>, \<^verbatim>\<open>os.homedir()\<close>, and
  what the two child processes report to their callbacks.
  Errors of the output stream are events without a handler in the source and are outside
  the model.
\<close>

datatype archive_entry = ArchiveFile (entry_path: string) (entry_name: string)

record exec_result =
  exec_error :: bool
  exec_stdout :: string

record host =
  existsSync :: "string \<Rightarrow> bool"
  readdirSync :: "string \<Rightarrow> js_error + string list"
  readFileSync :: "string \<Rightarrow> js_error + string"
  finalize :: "archive_entry list \<Rightarrow> js_error option"
  dirname :: "string \<Rightarrow> string"
  homedir :: string
  where_exec :: "string \<Rightarrow> string \<Rightarrow> exec_result"
  powershell_exec :: "string \<Rightarrow> exec_result"

text \<open>
  \<^verbatim>\<open>path.join(a, b)\<close>. Node joins with the platform separator and normalises the
  result. The entry names of the archive are joined from a folder constant and a directory
  entry that ends with the extension, where normalisation changes nothing, and the archive
  format writes the separator as a slash. The file system of the model answers for the
  joined path as it stands.
\<close>

definition path_join :: "string \<Rightarrow> string \<Rightarrow> string" where
  "path_join a b = a @ ''/'' @ b"

definition path_arg_message :: string where
  "path_arg_message = ''The path argument must be of type string''"

section \<open>ArchiveBuilder\<close>

text \<open>
  The body of the \<^verbatim>\<open>forEach\<close> callback of \<^verbatim>\<open>addFilteredFilesToArchive\<close>, run over
  the files that passed the extension filter: the file is read first (the read may throw,
  which ends the loop), then the folder decides whether it is added.
\<close>

fun forEach_file ::
  "host \<Rightarrow> string \<Rightarrow> string \<Rightarrow> jsval \<Rightarrow> string list \<Rightarrow> archive_entry list
    \<Rightarrow> js_error + archive_entry list" where
  "forEach_file h dirPath folder deviceName [] archive = Inr archive"
| "forEach_file h dirPath folder deviceName (file # files) archive =
     (let filePath = path_join dirPath file in
      case readFileSync h filePath of
        Inl e \<Rightarrow> Inl e
      | Inr content \<Rightarrow>
          if folder = ''temp'' then
            forEach_file h dirPath folder deviceName files
              (archive @ [ArchiveFile filePath (path_join folder file)])
          else if (folder = ''out'' \<or> folder = ''_inputs_severin/tables'')
                  \<and> str_includes file (to_string deviceName) then
            forEach_file h dirPath folder deviceName files
              (archive @ [ArchiveFile filePath (path_join folder file)])
          else forEach_file h dirPath folder deviceName files archive)"

definition addFilteredFilesToArchive ::
  "host \<Rightarrow> string \<Rightarrow> string \<Rightarrow> string \<Rightarrow> jsval \<Rightarrow> archive_entry list
    \<Rightarrow> js_error + archive_entry list" where
  "addFilteredFilesToArchive h baseDir folder extension deviceName archive =
     (let dirPath = path_join baseDir folder in
      if existsSync h dirPath then
        (case readdirSync h dirPath of
           Inl e \<Rightarrow> Inl e
         | Inr names \<Rightarrow>
             forEach_file h dirPath folder deviceName
               (filter (\<lambda>file. endsWith file extension) names) archive)
      else Inr archive)"

text \<open>
  The \<^verbatim>\<open>try\<close> block of \<^verbatim>\<open>createAndSendZip\<close>: \<^verbatim>\<open>path.join\<close> throws a TypeError
  on a base directory that is not a string; the three rules run in the order of the
  source; \<^verbatim>\<open>archive.finalize()\<close> is awaited last.
\<close>

definition createAndSendZip_try ::
  "host \<Rightarrow> jsval \<Rightarrow> jsval \<Rightarrow> js_error + archive_entry list" where
  "createAndSendZip_try h baseDir deviceName =
     (case baseDir of
        JStr b \<Rightarrow>
          (case addFilteredFilesToArchive h b ''out'' ''.txt'' deviceName [] of
             Inl e \<Rightarrow> Inl e
           | Inr a1 \<Rightarrow>
          (case addFilteredFilesToArchive h b ''_inputs_severin/tables'' ''.txt'' deviceName a1 of
             Inl e \<Rightarrow> Inl e
           | Inr a2 \<Rightarrow>
          (case addFilteredFilesToArchive h b ''temp'' ''.net'' deviceName a2 of
             Inl e \<Rightarrow> Inl e
           | Inr a3 \<Rightarrow>
          (case finalize h a3 of
             Some e \<Rightarrow> Inl e
           | None \<Rightarrow> Inr a3))))
      | _ \<Rightarrow> Inl (TypeError path_arg_message))"

text \<open>
  \<^verbatim>\<open>createAndSendZip\<close> returns \<^verbatim>\<open>{success, message}\<close>; when the archive was
  finalized the output stream closes and the archive is sent to every open client
  (\<open>sent\<close>: the archives broadcast, none after an exception).
\<close>

record zip_outcome =
  success :: bool
  message :: string
  sent :: "archive_entry list list"

definition createAndSendZip :: "host \<Rightarrow> jsval \<Rightarrow> jsval \<Rightarrow> zip_outcome" where
  "createAndSendZip h baseDir deviceName =
     (case createAndSendZip_try h baseDir deviceName of
        Inr archive \<Rightarrow>
          \<lparr>success = True,
           message = ''Filtered ZIP successfully created and sent.'',
           sent = [archive]\<rparr>
      | Inl e \<Rightarrow> \<lparr>success = False, message = error_message e, sent = []\<rparr>)"

text \<open>The names directly inside a directory; none when it does not exist.\<close>

definition dir_entries :: "host \<Rightarrow> string \<Rightarrow> string list" where
  "dir_entries h dirPath =
     (if existsSync h dirPath then
        (case readdirSync h dirPath of Inr names \<Rightarrow> names | Inl e \<Rightarrow> [])
      else [])"

text \<open>
  Whether the \<^verbatim>\<open>if\<close> chain of the callback adds a file, and the files one rule
  contributes.
\<close>

definition passes :: "string \<Rightarrow> jsval \<Rightarrow> string \<Rightarrow> bool" where
  "passes folder deviceName file =
     (folder = ''temp'' \<or>
      (folder = ''out'' \<or> folder = ''_inputs_severin/tables'')
      \<and> str_includes file (to_string deviceName))"

definition rule_files :: "host \<Rightarrow> string \<Rightarrow> string \<Rightarrow> string \<Rightarrow> jsval \<Rightarrow> string list" where
  "rule_files h baseDir folder extension deviceName =
     filter (passes folder deviceName)
       (filter (\<lambda>file. endsWith file extension) (dir_entries h (path_join baseDir folder)))"

definition rule_entries ::
  "host \<Rightarrow> string \<Rightarrow> string \<Rightarrow> string \<Rightarrow> jsval \<Rightarrow> archive_entry list" where
  "rule_entries h baseDir folder extension deviceName =
     map (\<lambda>file. ArchiveFile (path_join (path_join baseDir folder) file) (path_join folder file))
       (rule_files h baseDir folder extension deviceName)"

section \<open>DirectoryLocator\<close>

text \<open>
  \<^verbatim>\<open>s.trim()\<close> strips white space and line terminators at both ends (the code units
  below 128 that count as such), \<^verbatim>\<open>s.split("\n")[0]\<close> is the text before the first
  line feed, and \<^verbatim>\<open>s.split("\r\n")\<close> cuts at every carriage return followed by a
  line feed.
\<close>

definition is_space :: "char \<Rightarrow> bool" where
  "is_space c = (c \<in> set [CHR 0x09, CHR 0x0A, CHR 0x0B, CHR 0x0C, CHR 0x0D, CHR 0x20])"

definition str_trim :: "string \<Rightarrow> string" where
  "str_trim s = rev (dropWhile is_space (rev (dropWhile is_space s)))"

definition first_line :: "string \<Rightarrow> string" where
  "first_line s = takeWhile (\<lambda>c. c \<noteq> CHR 0x0A) s"

fun split_crlf :: "string \<Rightarrow> string list" where
  "split_crlf [] = [[]]"
| "split_crlf [c] = [[c]]"
| "split_crlf (c # d # cs) =
     (if c = CHR 0x0D \<and> d = CHR 0x0A then [] # split_crlf cs
      else (case split_crlf (d # cs) of
              p # ps \<Rightarrow> (c # p) # ps
            | [] \<Rightarrow> [[c]]))"

definition getCommonDirectories :: "string \<Rightarrow> string list" where
  "getCommonDirectories userDir =
     [path_join userDir ''Desktop'',
      path_join userDir ''Downloads'',
      path_join userDir ''Documents'',
      ''C:'' @ [CHR 0x5C] @ ''Program Files'',
      ''C:'' @ [CHR 0x5C] @ ''Program Files (x86)'',
      ''C:'' @ [CHR 0x5C]]"

text \<open>
  \<^verbatim>\<open>findInCommonDirs\<close> starts one \<^verbatim>\<open>where\<close> process per directory; the two
  variables \<^verbatim>\<open>foundPath\<close> and \<^verbatim>\<open>checked\<close> are shared by the callbacks. Callbacks
  run one at a time, in the order in which the processes end. \<open>exec_callback\<close> is the
  callback of \<^verbatim>\<open>exec\<close>: it returns the new variables and what it passes to
  \<^verbatim>\<open>callback\<close>, if it calls it. \<open>matched\<close> is the test \<^verbatim>\<open>!error && stdout.trim()\<close>.
\<close>

record locate_state =
  foundPath :: "string option"
  checked :: nat

definition matched :: "exec_result \<Rightarrow> bool" where
  "matched r = (\<not> exec_error r \<and> str_trim (exec_stdout r) \<noteq> [])"

definition found_dir :: "host \<Rightarrow> exec_result \<Rightarrow> string" where
  "found_dir h r = dirname h (str_trim (first_line (exec_stdout r)))"

definition exec_callback ::
  "host \<Rightarrow> nat \<Rightarrow> exec_result \<Rightarrow> locate_state \<Rightarrow> locate_state \<times> string option list" where
  "exec_callback h n r st =
     (let st1 = st\<lparr>checked := checked st + 1\<rparr>;
          st2 = (if matched r then st1\<lparr>foundPath := Some (found_dir h r)\<rparr> else st1)
      in (st2, if checked st2 = n then [foundPath st2] else []))"

fun run_callbacks ::
  "host \<Rightarrow> nat \<Rightarrow> exec_result list \<Rightarrow> locate_state \<Rightarrow> string option list" where
  "run_callbacks h n [] st = []"
| "run_callbacks h n (r # rs) st =
     (case exec_callback h n r st of
        (st', delivered) \<Rightarrow> delivered @ run_callbacks h n rs st')"

text \<open>
  What \<^verbatim>\<open>foundPath\<close> holds after the callbacks of the results \<open>rs\<close> have run, when
  it held \<open>fp\<close> before: every match overwrites it.
\<close>

definition last_found :: "host \<Rightarrow> exec_result list \<Rightarrow> string option \<Rightarrow> string option" where
  "last_found h rs fp = foldl (\<lambda>fp r. if matched r then Some (found_dir h r) else fp) fp rs"

text \<open>
  \<open>completed\<close> lists the directories whose probes have ended, in the order in which they
  ended: a permutation of the common directories once every probe has ended, part of one
  before. The result is the list of values passed to \<^verbatim>\<open>callback\<close>.
\<close>

definition findInCommonDirs :: "host \<Rightarrow> string list \<Rightarrow> string \<Rightarrow> string option list" where
  "findInCommonDirs h completed fileName =
     (let directories = getCommonDirectories (homedir h) in
      run_callbacks h (length directories)
        (map (\<lambda>dir. where_exec h dir fileName) completed)
        \<lparr>foundPath = None, checked = 0\<rparr>)"

text \<open>\<^verbatim>\<open>findFileOnDisk\<close>: the value its callback receives.\<close>

definition findFileOnDisk :: "host \<Rightarrow> string \<Rightarrow> string option" where
  "findFileOnDisk h fileName =
     (let r = powershell_exec h fileName in
      if exec_error r then None
      else (case filter (\<lambda>s. s \<noteq> []) (split_crlf (str_trim (exec_stdout r))) of
              [] \<Rightarrow> None
            | f # fs \<Rightarrow> Some (dirname h f)))"

section \<open>MessageRouter\<close>

text \<open>
  What a run of the handler does: the messages sent to the originating client in order,
  the archives sent to every open client, the calls of \<^verbatim>\<open>createAndSendZip\<close> with
  their arguments, and the numbers of calls of \<^verbatim>\<open>findInCommonDirs\<close> and of
  \<^verbatim>\<open>findFileOnDisk\<close>.
\<close>

datatype reply =
    StatusSuccess string
  | StatusError string
  | FileFound string string
  | FileNotFound string

record outcome =
  replies :: "reply list"
  broadcasts :: "archive_entry list list"
  builds :: "(jsval \<times> jsval) list"
  locates :: nat
  scans :: nat

definition no_effect :: outcome where
  "no_effect = \<lparr>replies = [], broadcasts = [], builds = [], locates = 0, scans = 0\<rparr>"

definition and_then :: "outcome \<Rightarrow> outcome \<Rightarrow> outcome" where
  "and_then a b =
     \<lparr>replies = replies a @ replies b,
      broadcasts = broadcasts a @ broadcasts b,
      builds = builds a @ builds b,
      locates = locates a + locates b,
      scans = scans a + scans b\<rparr>"

text \<open>
  The two branches of \<^verbatim>\<open>handleDeviceNameAction\<close> that found a directory: the reply
  \<^verbatim>\<open>fileFound\<close>, then \<^verbatim>\<open>createAndSendZip(directory, deviceName)\<close>, whose result
  the source does not use.
\<close>

definition found_then_zip :: "host \<Rightarrow> jsval \<Rightarrow> string \<Rightarrow> string \<Rightarrow> outcome" where
  "found_then_zip h deviceName fileName directory =
     \<lparr>replies = [FileFound fileName directory],
      broadcasts = sent (createAndSendZip h (JStr directory) deviceName),
      builds = [(JStr directory, deviceName)],
      locates = 0,
      scans = 0\<rparr>"

text \<open>The callback given to \<^verbatim>\<open>findFileOnDisk\<close>; a string is truthy unless empty.\<close>

definition findFileOnDisk_callback ::
  "host \<Rightarrow> jsval \<Rightarrow> string \<Rightarrow> string option \<Rightarrow> outcome" where
  "findFileOnDisk_callback h deviceName fileName fullPath =
     (case fullPath of
        Some p \<Rightarrow>
          if p \<noteq> [] then found_then_zip h deviceName fileName p
          else no_effect\<lparr>replies := [FileNotFound fileName]\<rparr>
      | None \<Rightarrow> no_effect\<lparr>replies := [FileNotFound fileName]\<rparr>)"

text \<open>The callback given to \<^verbatim>\<open>findInCommonDirs\<close>.\<close>

definition findInCommonDirs_callback ::
  "host \<Rightarrow> jsval \<Rightarrow> string \<Rightarrow> string option \<Rightarrow> outcome" where
  "findInCommonDirs_callback h deviceName fileName directory =
     (case directory of
        Some d \<Rightarrow>
          if d \<noteq> [] then found_then_zip h deviceName fileName d
          else and_then (no_effect\<lparr>scans := 1\<rparr>)
                 (findFileOnDisk_callback h deviceName fileName (findFileOnDisk h fileName))
      | None \<Rightarrow>
          and_then (no_effect\<lparr>scans := 1\<rparr>)
            (findFileOnDisk_callback h deviceName fileName (findFileOnDisk h fileName)))"

definition handleDeviceNameAction :: "host \<Rightarrow> string list \<Rightarrow> jsval \<Rightarrow> outcome" where
  "handleDeviceNameAction h completed deviceName =
     (let fileName = ''ASMP start.bat'' in
      foldl and_then (no_effect\<lparr>locates := 1\<rparr>)
        (map (findInCommonDirs_callback h deviceName fileName)
           (findInCommonDirs h completed fileName)))"

text \<open>
  What \<^verbatim>\<open>JSON.parse(message)\<close> gives: it throws, or it returns null (on which reading
  a property throws a TypeError), or it returns another value, of which the handler reads
  the four properties of \<open>payload\<close> (undefined where the value has no such property, as
  on every number, string, boolean and array).
\<close>

record payload =
  msg_type :: jsval
  msg_action :: jsval
  msg_deviceName :: jsval
  msg_filePath :: jsval

datatype parsed = ParseThrows js_error | ParsedNull | ParsedValue payload

definition null_read_message :: string where
  "null_read_message = ''Cannot read properties of null''"

definition handleWebSocketMessage :: "host \<Rightarrow> string list \<Rightarrow> parsed \<Rightarrow> outcome" where
  "handleWebSocketMessage h completed parsed =
     (case parsed of
        ParseThrows e \<Rightarrow> no_effect\<lparr>replies := [StatusError (error_message e)]\<rparr>
      | ParsedNull \<Rightarrow> no_effect\<lparr>replies := [StatusError null_read_message]\<rparr>
      | ParsedValue data \<Rightarrow>
          if msg_type data = JStr ''filePath'' then
            (let result = createAndSendZip h (msg_filePath data) JNull in
             \<lparr>replies = [if success result then StatusSuccess (message result)
                         else StatusError (message result)],
              broadcasts = sent result,
              builds = [(msg_filePath data, JNull)],
              locates = 0,
              scans = 0\<rparr>)
          else if msg_action data = JStr ''sendDeviceName'' \<and> truthy (msg_deviceName data) then
            handleDeviceNameAction h completed (msg_deviceName data)
          else no_effect)"

section \<open>A host to run the program on\<close>

text \<open>
  The installation of the end-to-end example: \<^verbatim>\<open>/d/out\<close> holds
  \<^verbatim>\<open>DEV1-a.txt\<close> and \<^verbatim>\<open>DEV2-b.txt\<close>, \<^verbatim>\<open>/d/temp\<close> holds \<^verbatim>\<open>x.net\<close>, there
  is no \<^verbatim>\<open>/d/_inputs_severin/tables\<close>; every file can be read. The probe of the
  Downloads directory finds \<^verbatim>\<open>/d/ASMP start.bat\<close>, the others find nothing.
\<close>

definition example_dirname :: "string \<Rightarrow> string" where
  "example_dirname p = rev (drop 1 (dropWhile (\<lambda>c. c \<noteq> CHR ''/'') (rev p)))"

definition example_host :: host where
  "example_host =
     \<lparr>existsSync = (\<lambda>p. p = ''/d/out'' \<or> p = ''/d/temp''),
      readdirSync = (\<lambda>p. if p = ''/d/out'' then Inr [''DEV1-a.txt'', ''DEV2-b.txt'']
                          else if p = ''/d/temp'' then Inr [''x.net'']
                          else Inl (SystemError ''ENOENT'')),
      readFileSync = (\<lambda>p. Inr ''data''),
      finalize = (\<lambda>a. None),
      dirname = example_dirname,
      homedir = ''/home/u'',
      where_exec = (\<lambda>dir fileName.
         if dir = ''/home/u/Downloads''
         then \<lparr>exec_error = False, exec_stdout = ''/d/ASMP start.bat'' @ [CHR 0x0D, CHR 0x0A]\<rparr>
         else \<lparr>exec_error = True, exec_stdout = []\<rparr>),
      powershell_exec = (\<lambda>fileName. \<lparr>exec_error = False, exec_stdout = []\<rparr>)\<rparr>"

text \<open>Two completion orders of the six probes.\<close>

definition example_order :: "string list" where
  "example_order = rev (getCommonDirectories ''/home/u'')"

definition example_order2 :: "string list" where
  "example_order2 = getCommonDirectories ''/home/u''"

text \<open>The same installation with a file in \<^verbatim>\<open>/d/out\<close> that cannot be read.\<close>

definition unreadable_host :: host where
  "unreadable_host =
     example_host\<lparr>readFileSync :=
       (\<lambda>p. if p = ''/d/out/DEV2-b.txt'' then Inl (SystemError ''EACCES'') else Inr ''data'')\<rparr>"

text \<open>
  The same installation when two probes match and each prints two lines, as
  \<^verbatim>\<open>where /r\<close> does when it finds the file twice under a directory: the probe of the
  Downloads directory prints \<^verbatim>\<open>/d/ASMP start.bat\<close> and then
  \<^verbatim>\<open>/d/backup/ASMP start.bat\<close>, the probe of the Desktop directory prints
  \<^verbatim>\<open>/a/ASMP start.bat\<close> and then \<^verbatim>\<open>/a/old/ASMP start.bat\<close>. Then the
  installation when no probe finds anything.
\<close>

definition two_match_host :: host where
  "two_match_host =
     example_host\<lparr>where_exec := (\<lambda>dir fileName.
       if dir = ''/home/u/Downloads''
       then \<lparr>exec_error = False,
             exec_stdout = ''/d/ASMP start.bat'' @ [CHR 0x0D, CHR 0x0A]
                         @ ''/d/backup/ASMP start.bat'' @ [CHR 0x0D, CHR 0x0A]\<rparr>
       else if dir = ''/home/u/Desktop''
       then \<lparr>exec_error = False,
             exec_stdout = ''/a/ASMP start.bat'' @ [CHR 0x0D, CHR 0x0A]
                         @ ''/a/old/ASMP start.bat'' @ [CHR 0x0D, CHR 0x0A]\<rparr>
       else \<lparr>exec_error = True, exec_stdout = []\<rparr>)\<rparr>"

definition no_match_host :: host where
  "no_match_host =
     example_host\<lparr>where_exec := (\<lambda>dir fileName. \<lparr>exec_error = True, exec_stdout = []\<rparr>)\<rparr>"

text \<open>The two messages of the interface, as \<^verbatim>\<open>JSON.parse\<close> returns them.\<close>

definition direct_path :: "string \<Rightarrow> parsed" where
  "direct_path p =
     ParsedValue \<lparr>msg_type = JStr ''filePath'', msg_action = JUndefined,
       msg_deviceName = JUndefined, msg_filePath = JStr p\<rparr>"

definition device_request :: "jsval \<Rightarrow> parsed" where
  "device_request d =
     ParsedValue \<lparr>msg_type = JUndefined, msg_action = JStr ''sendDeviceName'',
       msg_deviceName = d, msg_filePath = JUndefined\<rparr>"

section \<open>Strings: what the tests mean\<close>

lemma endsWith_iff: "endsWith s e \<longleftrightarrow> (\<exists>p. s = p @ e)"
proof
  assume "endsWith s e"
  then have "s = take (length s - length e) s @ e"
    by (metis append_take_drop_id endsWith_def)
  then show "\<exists>p. s = p @ e" ..
next
  assume "\<exists>p. s = p @ e"
  then show "endsWith s e"
    by (auto simp: endsWith_def)
qed

lemma str_includes_iff: "str_includes s d \<longleftrightarrow> (\<exists>p q. s = p @ d @ q)"
proof (induction s)
  case Nil
  then show ?case by auto
next
  case (Cons c cs)
  show ?case
  proof
    assume "str_includes (c # cs) d"
    then consider "take (length d) (c # cs) = d" | "str_includes cs d"
      by auto
    then show "\<exists>p q. c # cs = p @ d @ q"
    proof cases
      case 1
      then have "c # cs = [] @ d @ drop (length d) (c # cs)"
        by (metis append_Nil append_take_drop_id)
      then show ?thesis by blast
    next
      case 2
      then obtain p q where "cs = p @ d @ q"
        using Cons.IH by blast
      then have "c # cs = (c # p) @ d @ q" by simp
      then show ?thesis by blast
    qed
  next
    assume "\<exists>p q. c # cs = p @ d @ q"
    then obtain p q where pq: "c # cs = p @ d @ q" by blast
    show "str_includes (c # cs) d"
    proof (cases p)
      case Nil
      with pq have "take (length d) (c # cs) = d" by simp
      then show ?thesis by simp
    next
      case (Cons a p')
      with pq have "cs = p' @ d @ q" by simp
      then have "str_includes cs d"
        using Cons.IH by blast
      then show ?thesis by simp
    qed
  qed
qed

section \<open>The builder's loop\<close>

lemma forEach_file_Cons:
  "readFileSync h (path_join dirPath f) = Inr content \<Longrightarrow>
   forEach_file h dirPath folder deviceName (f # files) archive =
   forEach_file h dirPath folder deviceName files
     (if passes folder deviceName f
      then archive @ [ArchiveFile (path_join dirPath f) (path_join folder f)]
      else archive)"
  by (simp add: Let_def passes_def)

lemma forEach_file_Cons_Inl:
  "readFileSync h (path_join dirPath f) = Inl e \<Longrightarrow>
   forEach_file h dirPath folder deviceName (f # files) archive = Inl e"
  by (simp add: Let_def)

lemma forEach_file_Inr:
  "forEach_file h dirPath folder deviceName files archive = Inr archive' \<Longrightarrow>
   archive' = archive @
     map (\<lambda>file. ArchiveFile (path_join dirPath file) (path_join folder file))
       (filter (passes folder deviceName) files)"
proof (induction files arbitrary: archive)
  case Nil
  then show ?case by simp
next
  case (Cons f files)
  show ?case
  proof (cases "readFileSync h (path_join dirPath f)")
    case (Inl e)
    from Cons.prems show ?thesis
      unfolding forEach_file_Cons_Inl [OF Inl] by simp
  next
    case (Inr content)
    from Cons.prems have "forEach_file h dirPath folder deviceName files
        (if passes folder deviceName f
         then archive @ [ArchiveFile (path_join dirPath f) (path_join folder f)]
         else archive) = Inr archive'"
      unfolding forEach_file_Cons [OF Inr] .
    from Cons.IH [OF this] show ?thesis by simp
  qed
qed

lemma forEach_file_Inl:
  "file \<in> set files \<Longrightarrow> readFileSync h (path_join dirPath file) = Inl e \<Longrightarrow>
   \<exists>e'. forEach_file h dirPath folder deviceName files archive = Inl e'"
proof (induction files arbitrary: archive)
  case Nil
  then show ?case by simp
next
  case (Cons f files)
  show ?case
  proof (cases "readFileSync h (path_join dirPath f)")
    case (Inl e0)
    then show ?thesis
      unfolding forEach_file_Cons_Inl [OF Inl] by simp
  next
    case (Inr content)
    with Cons.prems have "file \<in> set files" by auto
    from Cons.IH [OF this Cons.prems(2)] show ?thesis
      unfolding forEach_file_Cons [OF Inr] .
  qed
qed

lemma forEach_file_total:
  "\<forall>file \<in> set files. \<exists>c. readFileSync h (path_join dirPath file) = Inr c \<Longrightarrow>
   \<exists>archive'. forEach_file h dirPath folder deviceName files archive = Inr archive'"
proof (induction files arbitrary: archive)
  case Nil
  then show ?case by simp
next
  case (Cons f files)
  from Cons.prems obtain c where c: "readFileSync h (path_join dirPath f) = Inr c" by auto
  from Cons.prems have rest: "\<forall>file \<in> set files. \<exists>c. readFileSync h (path_join dirPath file) = Inr c"
    by simp
  from Cons.IH [OF rest] show ?case
    unfolding forEach_file_Cons [OF c] .
qed

lemma addFiltered_Inr:
  assumes "addFilteredFilesToArchive h baseDir folder extension deviceName archive = Inr archive'"
  shows "archive' = archive @ rule_entries h baseDir folder extension deviceName"
proof (cases "existsSync h (path_join baseDir folder)")
  case False
  with assms show ?thesis
    by (simp add: addFilteredFilesToArchive_def rule_entries_def rule_files_def dir_entries_def)
next
  case True
  with assms obtain names where names: "readdirSync h (path_join baseDir folder) = Inr names"
    by (cases "readdirSync h (path_join baseDir folder)")
       (simp_all add: addFilteredFilesToArchive_def)
  with assms True have
    "forEach_file h (path_join baseDir folder) folder deviceName
       (filter (\<lambda>file. endsWith file extension) names) archive = Inr archive'"
    by (simp add: addFilteredFilesToArchive_def)
  from forEach_file_Inr [OF this] True names show ?thesis
    by (simp add: rule_entries_def rule_files_def dir_entries_def)
qed

lemma createAndSendZip_try_Inr:
  assumes "createAndSendZip_try h (JStr b) deviceName = Inr archive"
  shows "archive = rule_entries h b ''out'' ''.txt'' deviceName
                 @ rule_entries h b ''_inputs_severin/tables'' ''.txt'' deviceName
                 @ rule_entries h b ''temp'' ''.net'' deviceName"
proof -
  from assms obtain a1 where
    a1: "addFilteredFilesToArchive h b ''out'' ''.txt'' deviceName [] = Inr a1"
    by (cases "addFilteredFilesToArchive h b ''out'' ''.txt'' deviceName []")
       (simp_all add: createAndSendZip_try_def)
  from assms a1 obtain a2 where
    a2: "addFilteredFilesToArchive h b ''_inputs_severin/tables'' ''.txt'' deviceName a1 = Inr a2"
    by (cases "addFilteredFilesToArchive h b ''_inputs_severin/tables'' ''.txt'' deviceName a1")
       (simp_all add: createAndSendZip_try_def)
  from assms a1 a2 obtain a3 where
    a3: "addFilteredFilesToArchive h b ''temp'' ''.net'' deviceName a2 = Inr a3"
    by (cases "addFilteredFilesToArchive h b ''temp'' ''.net'' deviceName a2")
       (simp_all add: createAndSendZip_try_def)
  from assms a1 a2 a3 have "archive = a3"
    by (cases "finalize h a3") (simp_all add: createAndSendZip_try_def)
  with addFiltered_Inr [OF a1] addFiltered_Inr [OF a2] addFiltered_Inr [OF a3]
  show ?thesis by simp
qed

lemma createAndSendZip_success:
  "success (createAndSendZip h baseDir deviceName) \<Longrightarrow>
   \<exists>archive. createAndSendZip_try h baseDir deviceName = Inr archive
     \<and> sent (createAndSendZip h baseDir deviceName) = [archive]"
  by (cases "createAndSendZip_try h baseDir deviceName") (simp_all add: createAndSendZip_def)

text \<open>A build succeeds when every read and every listing does and the archiver finalizes.\<close>

lemma addFiltered_total:
  assumes "\<And>p. \<exists>c. readFileSync h p = Inr c"
    and "\<And>p. existsSync h p \<Longrightarrow> \<exists>names. readdirSync h p = Inr names"
  shows "\<exists>archive'. addFilteredFilesToArchive h b folder extension deviceName archive = Inr archive'"
proof (cases "existsSync h (path_join b folder)")
  case False
  then show ?thesis by (simp add: addFilteredFilesToArchive_def)
next
  case True
  with assms(2) obtain names where names: "readdirSync h (path_join b folder) = Inr names"
    by blast
  have "\<forall>file \<in> set (filter (\<lambda>file. endsWith file extension) names).
          \<exists>c. readFileSync h (path_join (path_join b folder) file) = Inr c"
    using assms(1) by blast
  from forEach_file_total [OF this] True names show ?thesis
    by (simp add: addFilteredFilesToArchive_def)
qed

lemma createAndSendZip_succeeds:
  assumes "\<And>p. \<exists>c. readFileSync h p = Inr c"
    and "\<And>p. existsSync h p \<Longrightarrow> \<exists>names. readdirSync h p = Inr names"
    and "\<And>a. finalize h a = None"
  shows "success (createAndSendZip h (JStr b) deviceName)"
proof -
  obtain a1 where a1: "addFilteredFilesToArchive h b ''out'' ''.txt'' deviceName [] = Inr a1"
    using addFiltered_total [OF assms(1,2)] by blast
  obtain a2 where
    a2: "addFilteredFilesToArchive h b ''_inputs_severin/tables'' ''.txt'' deviceName a1 = Inr a2"
    using addFiltered_total [OF assms(1,2)] by blast
  obtain a3 where a3: "addFilteredFilesToArchive h b ''temp'' ''.net'' deviceName a2 = Inr a3"
    using addFiltered_total [OF assms(1,2)] by blast
  from a1 a2 a3 assms(3) show ?thesis
    by (simp add: createAndSendZip_def createAndSendZip_try_def)
qed

lemma passes_simps:
  "passes ''out'' deviceName f = str_includes f (to_string deviceName)"
  "passes ''_inputs_severin/tables'' deviceName f = str_includes f (to_string deviceName)"
  "passes ''temp'' deviceName f = True"
  by (simp_all add: passes_def)

lemma set_rule_entries:
  "set (rule_entries h b folder extension deviceName) =
   {ArchiveFile (path_join (path_join b folder) f) (path_join folder f) | f.
      f \<in> set (dir_entries h (path_join b folder)) \<and> endsWith f extension
      \<and> passes folder deviceName f}"
  by (auto simp: rule_entries_def rule_files_def)

text \<open>
  With null as device name, \<^verbatim>\<open>file.includes(null)\<close> keeps the names that contain the
  text \<^verbatim>\<open>null\<close>.
\<close>

lemma null_filter_looks_for_null:
  "set (rule_entries h b ''out'' ''.txt'' JNull) =
   {ArchiveFile (path_join (path_join b ''out'') f) (path_join ''out'' f) | f.
      f \<in> set (dir_entries h (path_join b ''out'')) \<and> (\<exists>p. f = p @ ''.txt'')
      \<and> (\<exists>p q. f = p @ ''null'' @ q)}"
  unfolding set_rule_entries passes_simps endsWith_iff str_includes_iff to_string.simps ..

text \<open>The definitions a run on a concrete host unfolds.\<close>

lemmas eval_defs = createAndSendZip_def createAndSendZip_try_def addFilteredFilesToArchive_def
  path_join_def endsWith_def Let_def

text \<open>The hosts of the examples.\<close>

lemmas host_defs = example_host_def unreadable_host_def two_match_host_def no_match_host_def

section \<open>Archive membership\<close>

text \<open>
  C1. When a build with base directory \<open>base\<close> and the string \<open>d\<close> as device name
  succeeds, one archive is sent, and its entries are exactly: under \<^verbatim>\<open>out/\<close> and under
  \<^verbatim>\<open>_inputs_severin/tables/\<close> the names directly inside the sub-directory that end
  with \<^verbatim>\<open>.txt\<close> and contain \<open>d\<close> as a substring; under \<^verbatim>\<open>temp/\<close> every name
  directly inside the sub-directory that ends with \<^verbatim>\<open>.net\<close>, whatever \<open>d\<close> is.
\<close>

theorem device_scoped_archive_contents:
  assumes "success (createAndSendZip h (JStr base) (JStr d))"
  shows "\<exists>archive. sent (createAndSendZip h (JStr base) (JStr d)) = [archive] \<and>
    set archive =
      {ArchiveFile (path_join (path_join base ''out'') f) (path_join ''out'' f) | f.
         f \<in> set (dir_entries h (path_join base ''out''))
         \<and> (\<exists>p. f = p @ ''.txt'') \<and> (\<exists>p q. f = p @ d @ q)}
      \<union> {ArchiveFile (path_join (path_join base ''_inputs_severin/tables'') f)
            (path_join ''_inputs_severin/tables'' f) | f.
         f \<in> set (dir_entries h (path_join base ''_inputs_severin/tables''))
         \<and> (\<exists>p. f = p @ ''.txt'') \<and> (\<exists>p q. f = p @ d @ q)}
      \<union> {ArchiveFile (path_join (path_join base ''temp'') f) (path_join ''temp'' f) | f.
         f \<in> set (dir_entries h (path_join base ''temp'')) \<and> (\<exists>p. f = p @ ''.net'')}"
proof -
  from createAndSendZip_success [OF assms] obtain archive where
    tried: "createAndSendZip_try h (JStr base) (JStr d) = Inr archive" and
    sent: "sent (createAndSendZip h (JStr base) (JStr d)) = [archive]"
    by blast
  have "set archive =
      set (rule_entries h base ''out'' ''.txt'' (JStr d))
      \<union> set (rule_entries h base ''_inputs_severin/tables'' ''.txt'' (JStr d))
      \<union> set (rule_entries h base ''temp'' ''.net'' (JStr d))"
    unfolding createAndSendZip_try_Inr [OF tried] by (simp add: Un_assoc)
  then have "set archive = 
      {ArchiveFile (path_join (path_join base ''out'') f) (path_join ''out'' f) | f.
         f \<in> set (dir_entries h (path_join base ''out''))
         \<and> (\<exists>p. f = p @ ''.txt'') \<and> (\<exists>p q. f = p @ d @ q)}
      \<union> {ArchiveFile (path_join (path_join base ''_inputs_severin/tables'') f)
            (path_join ''_inputs_severin/tables'' f) | f.
         f \<in> set (dir_entries h (path_join base ''_inputs_severin/tables''))
         \<and> (\<exists>p. f = p @ ''.txt'') \<and> (\<exists>p q. f = p @ d @ q)}
      \<union> {ArchiveFile (path_join (path_join base ''temp'') f) (path_join ''temp'' f) | f.
         f \<in> set (dir_entries h (path_join base ''temp'')) \<and> (\<exists>p. f = p @ ''.net'')}"
    unfolding set_rule_entries passes_simps endsWith_iff str_includes_iff to_string.simps
    by simp
  with sent show ?thesis by blast
qed

theorem device_scoped_archive_contents_witness:
  "success (createAndSendZip example_host (JStr ''/d'') (JStr ''DEV1'')) \<and>
   sent (createAndSendZip example_host (JStr ''/d'') (JStr ''DEV1'')) =
     [[ArchiveFile ''/d/out/DEV1-a.txt'' ''out/DEV1-a.txt'',
       ArchiveFile ''/d/temp/x.net'' ''temp/x.net'']] \<and>
   (\<exists>archive. sent (createAndSendZip example_host (JStr ''/d'') (JStr ''DEV1'')) = [archive] \<and>
    set archive =
      {ArchiveFile (path_join (path_join ''/d'' ''out'') f) (path_join ''out'' f) | f.
         f \<in> set (dir_entries example_host (path_join ''/d'' ''out''))
         \<and> (\<exists>p. f = p @ ''.txt'') \<and> (\<exists>p q. f = p @ ''DEV1'' @ q)}
      \<union> {ArchiveFile (path_join (path_join ''/d'' ''_inputs_severin/tables'') f)
            (path_join ''_inputs_severin/tables'' f) | f.
         f \<in> set (dir_entries example_host (path_join ''/d'' ''_inputs_severin/tables''))
         \<and> (\<exists>p. f = p @ ''.txt'') \<and> (\<exists>p q. f = p @ ''DEV1'' @ q)}
      \<union> {ArchiveFile (path_join (path_join ''/d'' ''temp'') f) (path_join ''temp'' f) | f.
         f \<in> set (dir_entries example_host (path_join ''/d'' ''temp'')) \<and> (\<exists>p. f = p @ ''.net'')})"
proof -
  have run: "createAndSendZip example_host (JStr ''/d'') (JStr ''DEV1'') =
    \<lparr>success = True, message = ''Filtered ZIP successfully created and sent.'',
     sent = [[ArchiveFile ''/d/out/DEV1-a.txt'' ''out/DEV1-a.txt'',
              ArchiveFile ''/d/temp/x.net'' ''temp/x.net'']]\<rparr>"
    by (simp add: eval_defs example_host_def)
  then have ok: "success (createAndSendZip example_host (JStr ''/d'') (JStr ''DEV1''))"
    by simp
  from device_scoped_archive_contents [OF ok] ok run show ?thesis
    by simp
qed

section \<open>Entry names\<close>

lemma sent_member:
  "archive \<in> set (sent (createAndSendZip h baseDir deviceName)) \<Longrightarrow>
   createAndSendZip_try h baseDir deviceName = Inr archive"
  by (cases "createAndSendZip_try h baseDir deviceName") (simp_all add: createAndSendZip_def)

lemma createAndSendZip_try_string:
  "createAndSendZip_try h baseDir deviceName = Inr archive \<Longrightarrow> \<exists>b. baseDir = JStr b"
  by (cases baseDir) (simp_all add: createAndSendZip_try_def)

lemma names_of_rule:
  "map entry_name (rule_entries h b folder extension deviceName) =
   map (path_join folder) (rule_files h b folder extension deviceName)"
  by (simp add: rule_entries_def o_def)

lemma distinct_rule_names:
  assumes "distinct (dir_entries h (path_join b folder))"
  shows "distinct (map entry_name (rule_entries h b folder extension deviceName))"
proof -
  have "inj_on (path_join folder) A" for A
    by (rule inj_onI) (simp add: path_join_def)
  moreover from assms have "distinct (rule_files h b folder extension deviceName)"
    by (simp add: rule_files_def)
  ultimately show ?thesis
    unfolding names_of_rule by (simp add: distinct_map)
qed

lemma dir_entries_distinct:
  assumes "\<forall>p names. readdirSync h p = Inr names \<longrightarrow> distinct names"
  shows "distinct (dir_entries h p)"
proof (cases "readdirSync h p")
  case (Inl e)
  then show ?thesis by (simp add: dir_entries_def)
next
  case (Inr names)
  with assms have "distinct names" by blast
  with Inr show ?thesis by (simp add: dir_entries_def)
qed

lemma rule_names_prefix:
  "n \<in> set (map entry_name (rule_entries h b folder extension deviceName)) \<Longrightarrow>
   \<exists>f. n = folder @ ''/'' @ f"
  unfolding names_of_rule by (auto simp: path_join_def)

text \<open>
  C8. In a directory no two entries have the same name, so \<^verbatim>\<open>fs.readdirSync\<close> returns
  a list without repetition. Then, whatever the base directory and the device name, no two
  entries of an archive that a job sends have the same entry name.
\<close>

theorem archive_entry_names_unique:
  assumes "\<forall>p names. readdirSync h p = Inr names \<longrightarrow> distinct names"
  shows "\<forall>archive \<in> set (sent (createAndSendZip h baseDir deviceName)).
           distinct (map entry_name archive)"
proof
  fix archive
  assume "archive \<in> set (sent (createAndSendZip h baseDir deviceName))"
  then have tried: "createAndSendZip_try h baseDir deviceName = Inr archive"
    by (rule sent_member)
  then obtain b where b: "baseDir = JStr b"
    using createAndSendZip_try_string by blast
  let ?out = "map entry_name (rule_entries h b ''out'' ''.txt'' deviceName)"
  let ?tab = "map entry_name (rule_entries h b ''_inputs_severin/tables'' ''.txt'' deviceName)"
  let ?tmp = "map entry_name (rule_entries h b ''temp'' ''.net'' deviceName)"
  from tried b have names: "map entry_name archive = ?out @ ?tab @ ?tmp"
    using createAndSendZip_try_Inr [of h b deviceName archive] by simp
  have d: "distinct ?out" "distinct ?tab" "distinct ?tmp"
    using assms by (simp_all only: distinct_rule_names dir_entries_distinct)
  have "set ?out \<inter> set ?tab = {}"
  proof (rule ccontr)
    assume "set ?out \<inter> set ?tab \<noteq> {}"
    then obtain n where "n \<in> set ?out" "n \<in> set ?tab" by blast
    then obtain f g where "n = ''out'' @ ''/'' @ f" "n = ''_inputs_severin/tables'' @ ''/'' @ g"
      using rule_names_prefix by blast
    then show False by simp
  qed
  moreover have "set ?out \<inter> set ?tmp = {}"
  proof (rule ccontr)
    assume "set ?out \<inter> set ?tmp \<noteq> {}"
    then obtain n where "n \<in> set ?out" "n \<in> set ?tmp" by blast
    then obtain f g where "n = ''out'' @ ''/'' @ f" "n = ''temp'' @ ''/'' @ g"
      using rule_names_prefix by blast
    then show False by simp
  qed
  moreover have "set ?tab \<inter> set ?tmp = {}"
  proof (rule ccontr)
    assume "set ?tab \<inter> set ?tmp \<noteq> {}"
    then obtain n where "n \<in> set ?tab" "n \<in> set ?tmp" by blast
    then obtain f g where "n = ''_inputs_severin/tables'' @ ''/'' @ f" "n = ''temp'' @ ''/'' @ g"
      using rule_names_prefix by blast
    then show False by simp
  qed
  ultimately show "distinct (map entry_name archive)"
    unfolding names using d by (simp add: Int_Un_distrib)
qed

lemma example_readdir_distinct:
  "\<forall>p names. readdirSync example_host p = Inr names \<longrightarrow> distinct names"
  by (auto simp: example_host_def split: if_splits)

theorem archive_entry_names_unique_witness:
  "sent (createAndSendZip example_host (JStr ''/d'') (JStr ''DEV'')) =
     [[ArchiveFile ''/d/out/DEV1-a.txt'' ''out/DEV1-a.txt'',
       ArchiveFile ''/d/out/DEV2-b.txt'' ''out/DEV2-b.txt'',
       ArchiveFile ''/d/temp/x.net'' ''temp/x.net'']] \<and>
   distinct (map entry_name
     [ArchiveFile ''/d/out/DEV1-a.txt'' ''out/DEV1-a.txt'',
      ArchiveFile ''/d/out/DEV2-b.txt'' ''out/DEV2-b.txt'',
      ArchiveFile ''/d/temp/x.net'' ''temp/x.net''])"
proof -
  have run: "sent (createAndSendZip example_host (JStr ''/d'') (JStr ''DEV'')) =
     [[ArchiveFile ''/d/out/DEV1-a.txt'' ''out/DEV1-a.txt'',
       ArchiveFile ''/d/out/DEV2-b.txt'' ''out/DEV2-b.txt'',
       ArchiveFile ''/d/temp/x.net'' ''temp/x.net'']]"
    by (simp add: eval_defs example_host_def)
  from archive_entry_names_unique [OF example_readdir_distinct, of "JStr ''/d''" "JStr ''DEV''"]
  show ?thesis
    unfolding run by simp
qed

section \<open>Read errors\<close>

lemma addFiltered_Inl:
  assumes "existsSync h (path_join b folder)"
    and "readdirSync h (path_join b folder) = Inr names"
    and "f \<in> set names" and "endsWith f extension"
    and "readFileSync h (path_join (path_join b folder) f) = Inl e"
  shows "\<exists>e'. addFilteredFilesToArchive h b folder extension deviceName archive = Inl e'"
proof -
  from assms(3,4) have "f \<in> set (filter (\<lambda>file. endsWith file extension) names)"
    by simp
  from forEach_file_Inl [OF this assms(5)] assms(1,2) show ?thesis
    by (simp add: addFilteredFilesToArchive_def)
qed

lemma createAndSendZip_try_Inl:
  assumes "(folder, extension) \<in>
      set [(''out'', ''.txt''), (''_inputs_severin/tables'', ''.txt''), (''temp'', ''.net'')]"
    and "\<And>archive. \<exists>e'. addFilteredFilesToArchive h b folder extension deviceName archive = Inl e'"
  shows "\<exists>e'. createAndSendZip_try h (JStr b) deviceName = Inl e'"
proof (cases "createAndSendZip_try h (JStr b) deviceName")
  case (Inl e')
  then show ?thesis by blast
next
  case (Inr archive)
  then obtain a1 where
    a1: "addFilteredFilesToArchive h b ''out'' ''.txt'' deviceName [] = Inr a1"
    by (cases "addFilteredFilesToArchive h b ''out'' ''.txt'' deviceName []")
       (simp_all add: createAndSendZip_try_def)
  from Inr a1 obtain a2 where
    a2: "addFilteredFilesToArchive h b ''_inputs_severin/tables'' ''.txt'' deviceName a1 = Inr a2"
    by (cases "addFilteredFilesToArchive h b ''_inputs_severin/tables'' ''.txt'' deviceName a1")
       (simp_all add: createAndSendZip_try_def)
  from Inr a1 a2 obtain a3 where
    a3: "addFilteredFilesToArchive h b ''temp'' ''.net'' deviceName a2 = Inr a3"
    by (cases "addFilteredFilesToArchive h b ''temp'' ''.net'' deviceName a2")
       (simp_all add: createAndSendZip_try_def)
  from assms(1) consider "folder = ''out'' \<and> extension = ''.txt''"
    | "folder = ''_inputs_severin/tables'' \<and> extension = ''.txt''"
    | "folder = ''temp'' \<and> extension = ''.net''"
    by auto
  then have False
  proof cases
    case 1
    with assms(2) [of "[]"] a1 show False by simp
  next
    case 2
    with assms(2) [of a1] a2 show False by simp
  next
    case 3
    with assms(2) [of a2] a3 show False by simp
  qed
  then show ?thesis ..
qed

text \<open>
  C9. Every file of an existing rule sub-directory whose name ends with the rule's
  extension is read before the folder and the device name are looked at; when reading one
  of them throws, the build returns an error result and sends no archive, whether or not
  the device name would have kept the file.
\<close>

theorem read_error_fails_build:
  assumes "(folder, extension) \<in>
      set [(''out'', ''.txt''), (''_inputs_severin/tables'', ''.txt''), (''temp'', ''.net'')]"
    and "existsSync h (path_join b folder)"
    and "readdirSync h (path_join b folder) = Inr names"
    and "f \<in> set names" and "endsWith f extension"
    and "readFileSync h (path_join (path_join b folder) f) = Inl e"
  shows "\<not> success (createAndSendZip h (JStr b) deviceName)
         \<and> sent (createAndSendZip h (JStr b) deviceName) = []"
proof -
  have "\<exists>e'. addFilteredFilesToArchive h b folder extension deviceName archive = Inl e'"
    for archive
    using assms(2-6) by (rule addFiltered_Inl)
  with assms(1) obtain e' where "createAndSendZip_try h (JStr b) deviceName = Inl e'"
    using createAndSendZip_try_Inl by blast
  then show ?thesis
    by (simp add: createAndSendZip_def)
qed

theorem read_error_fails_build_witness:
  "\<not> str_includes ''DEV2-b.txt'' ''DEV1''
   \<and> readFileSync unreadable_host ''/d/out/DEV2-b.txt'' = Inl (SystemError ''EACCES'')
   \<and> \<not> success (createAndSendZip unreadable_host (JStr ''/d'') (JStr ''DEV1''))
   \<and> sent (createAndSendZip unreadable_host (JStr ''/d'') (JStr ''DEV1'')) = []"
proof -
  have 1: "(''out'', ''.txt'') \<in>
      set [(''out'', ''.txt''), (''_inputs_severin/tables'', ''.txt''), (''temp'', ''.net'')]"
    by simp
  have 2: "existsSync unreadable_host (path_join ''/d'' ''out'')"
    by (simp add: host_defs path_join_def)
  have 3: "readdirSync unreadable_host (path_join ''/d'' ''out'')
             = Inr [''DEV1-a.txt'', ''DEV2-b.txt'']"
    by (simp add: host_defs path_join_def)
  have 4: "''DEV2-b.txt'' \<in> set [''DEV1-a.txt'', ''DEV2-b.txt'']"
    by simp
  have 5: "endsWith ''DEV2-b.txt'' ''.txt''"
    by (simp add: endsWith_def)
  have 6: "readFileSync unreadable_host (path_join (path_join ''/d'' ''out'') ''DEV2-b.txt'')
             = Inl (SystemError ''EACCES'')"
    by (simp add: host_defs path_join_def)
  from read_error_fails_build [OF 1 2 3 4 5 6, of "JStr ''DEV1''"] 6 show ?thesis
    by (simp add: path_join_def)
qed

section \<open>Null and empty device names\<close>





section \<open>The probes' join\<close>

lemma last_found_snoc:
  "last_found h (rs @ [r]) fp = (if matched r then Some (found_dir h r) else last_found h rs fp)"
  by (simp add: last_found_def)


lemma last_found_some:
  "filter matched rs \<noteq> [] \<Longrightarrow>
   last_found h rs fp = Some (found_dir h (last (filter matched rs)))"
proof (induction rs rule: rev_induct)
  case Nil
  then show ?case by simp
next
  case (snoc r rs)
  show ?case
  proof (cases "matched r")
    case True
    then show ?thesis by (simp add: last_found_snoc)
  next
    case False
    with snoc.prems have "filter matched rs \<noteq> []" by simp
    with snoc.IH False show ?thesis by (simp add: last_found_snoc)
  qed
qed

lemma run_callbacks_eq:
  "run_callbacks h n rs st =
     (if checked st < n \<and> n \<le> checked st + length rs
      then [last_found h (take (n - checked st) rs) (foundPath st)] else [])"
proof (induction rs arbitrary: st)
  case Nil
  then show ?case by simp
next
  case (Cons r rs)
  let ?st = "if matched r then st\<lparr>checked := checked st + 1, foundPath := Some (found_dir h r)\<rparr>
             else st\<lparr>checked := checked st + 1\<rparr>"
  have step: "exec_callback h n r st = (?st, if checked st + 1 = n then [foundPath ?st] else [])"
    by (simp add: exec_callback_def Let_def)
  have c: "checked ?st = checked st + 1" by simp
  have fp: "foundPath ?st = last_found h [r] (foundPath st)"
    by (simp add: last_found_def)
  have comp: "last_found h (take k rs) (last_found h [r] (foundPath st))
     = last_found h (r # take k rs) (foundPath st)" for k
    by (simp add: last_found_def)
  show ?case
  proof (cases "checked st + 1 = n")
    case True
    have "run_callbacks h n rs ?st = []"
      unfolding Cons.IH [of ?st] c using True by simp
    with True have "run_callbacks h n (r # rs) st = [foundPath ?st]"
      unfolding run_callbacks.simps step by simp
    moreover from True have "take (n - checked st) (r # rs) = [r]"
      by (simp add: take_Cons')
    ultimately show ?thesis
      using True fp by simp
  next
    case False
    then have "run_callbacks h n (r # rs) st = run_callbacks h n rs ?st"
      unfolding run_callbacks.simps step by simp
    also have "\<dots> = (if checked st + 1 < n \<and> n \<le> checked st + 1 + length rs
        then [last_found h (take (n - (checked st + 1)) rs) (last_found h [r] (foundPath st))]
        else [])"
      unfolding Cons.IH [of ?st] c fp ..
    also have "\<dots> = (if checked st < n \<and> n \<le> checked st + length (r # rs)
        then [last_found h (take (n - checked st) (r # rs)) (foundPath st)] else [])"
    proof (cases "checked st + 1 < n \<and> n \<le> checked st + 1 + length rs")
      case True
      then have "take (n - checked st) (r # rs) = r # take (n - (checked st + 1)) rs"
        by (simp add: take_Cons')
      with True show ?thesis by (simp add: comp)
    next
      case False
      with \<open>checked st + 1 \<noteq> n\<close> show ?thesis by auto
    qed
    finally show ?thesis .
  qed
qed

lemma findInCommonDirs_complete:
  assumes "length completed = length (getCommonDirectories (homedir h))"
  shows "findInCommonDirs h completed fileName =
    [last_found h (map (\<lambda>dir. where_exec h dir fileName) completed) None]"
  using assms by (simp add: findInCommonDirs_def run_callbacks_eq getCommonDirectories_def)

lemma findInCommonDirs_incomplete:
  assumes "length completed < length (getCommonDirectories (homedir h))"
  shows "findInCommonDirs h completed fileName = []"
  using assms by (simp add: findInCommonDirs_def run_callbacks_eq)

lemma filter_matched_map:
  "filter matched (map (\<lambda>dir. where_exec h dir fileName) completed) =
   map (\<lambda>dir. where_exec h dir fileName)
     (filter (\<lambda>dir. matched (where_exec h dir fileName)) completed)"
  by (simp add: filter_map o_def)

lemma findInCommonDirs_last_match:
  assumes "length completed = length (getCommonDirectories (homedir h))"
    and "filter (\<lambda>dir. matched (where_exec h dir fileName)) completed \<noteq> []"
  shows "findInCommonDirs h completed fileName =
    [Some (found_dir h (where_exec h
       (last (filter (\<lambda>dir. matched (where_exec h dir fileName)) completed)) fileName))]"
proof -
  let ?rs = "map (\<lambda>dir. where_exec h dir fileName) completed"
  from assms(2) have ne: "filter matched ?rs \<noteq> []"
    unfolding filter_matched_map by simp
  have "last (filter matched ?rs) = where_exec h
       (last (filter (\<lambda>dir. matched (where_exec h dir fileName)) completed)) fileName"
    unfolding filter_matched_map using assms(2) by (simp add: last_map)
  with last_found_some [OF ne] findInCommonDirs_complete [OF assms(1)]
  show ?thesis by simp
qed


section \<open>Completion orders\<close>





text \<open>The definitions a run of the locator on a concrete host unfolds.\<close>

lemmas locate_defs = findInCommonDirs_def getCommonDirectories_def exec_callback_def
  matched_def found_dir_def str_trim_def is_space_def first_line_def example_dirname_def
  example_order_def example_order2_def path_join_def Let_def

text \<open>
  C4. Once every probe has ended, in whatever order (\<open>completed\<close> is a permutation of the
  common directories), and two or more of them matched (no error and an output that is not
  blank), \<^verbatim>\<open>callback\<close> has been called once, with \<^verbatim>\<open>path.dirname\<close> of the
  trimmed first line (the output up to its first line feed) of the matching probe that ended
  last; and as long as a probe is still running (any shorter prefix of \<open>completed\<close>),
  \<^verbatim>\<open>callback\<close> has not been called.
\<close>

theorem last_completing_match_wins:
  assumes "mset completed = mset (getCommonDirectories (homedir h))"
    and "2 \<le> length (filter (\<lambda>dir. \<not> exec_error (where_exec h dir fileName)
             \<and> str_trim (exec_stdout (where_exec h dir fileName)) \<noteq> []) completed)"
  shows "findInCommonDirs h completed fileName =
      [Some (dirname h (str_trim (takeWhile (\<lambda>c. c \<noteq> CHR 0x0A)
         (exec_stdout (where_exec h
            (last (filter (\<lambda>dir. \<not> exec_error (where_exec h dir fileName)
                     \<and> str_trim (exec_stdout (where_exec h dir fileName)) \<noteq> []) completed))
            fileName)))))]
    \<and> (\<forall>k < length completed. findInCommonDirs h (take k completed) fileName = [])"
proof -
  from assms(1) have len: "length completed = length (getCommonDirectories (homedir h))"
    by (rule mset_eq_length)
  from assms(2) have "filter (\<lambda>dir. matched (where_exec h dir fileName)) completed \<noteq> []"
    unfolding matched_def by auto
  with len have "findInCommonDirs h completed fileName =
      [Some (found_dir h (where_exec h
         (last (filter (\<lambda>dir. matched (where_exec h dir fileName)) completed)) fileName))]"
    by (rule findInCommonDirs_last_match)
  then have "findInCommonDirs h completed fileName =
      [Some (dirname h (str_trim (takeWhile (\<lambda>c. c \<noteq> CHR 0x0A)
         (exec_stdout (where_exec h
            (last (filter (\<lambda>dir. \<not> exec_error (where_exec h dir fileName)
                     \<and> str_trim (exec_stdout (where_exec h dir fileName)) \<noteq> []) completed))
            fileName)))))]"
    unfolding matched_def found_dir_def first_line_def .
  moreover have "findInCommonDirs h (take k completed) fileName = []" if "k < length completed" for k
  proof -
    from that len have "length (take k completed) < length (getCommonDirectories (homedir h))"
      by simp
    then show ?thesis by (rule findInCommonDirs_incomplete)
  qed
  ultimately show ?thesis by blast
qed

text \<open>
  On the host where two probes match and each prints two lines: when the Desktop probe ends
  last the result is \<^verbatim>\<open>/a\<close>, when the Downloads probe ends last it is \<^verbatim>\<open>/d\<close>,
  in both cases the directory of the first line and not of the second
  (\<^verbatim>\<open>/a/old\<close>, \<^verbatim>\<open>/d/backup\<close>); after five of the six probes nothing has been
  delivered.
\<close>

theorem last_completing_match_wins_witness:
  "findInCommonDirs two_match_host example_order ''ASMP start.bat'' = [Some ''/a'']
   \<and> findInCommonDirs two_match_host example_order2 ''ASMP start.bat'' = [Some ''/d'']
   \<and> findInCommonDirs two_match_host (take 5 example_order) ''ASMP start.bat'' = []
   \<and> exec_stdout (where_exec two_match_host ''/home/u/Desktop'' ''ASMP start.bat'') =
       ''/a/ASMP start.bat'' @ [CHR 0x0D, CHR 0x0A] @ ''/a/old/ASMP start.bat'' @ [CHR 0x0D, CHR 0x0A]
   \<and> exec_stdout (where_exec two_match_host ''/home/u/Downloads'' ''ASMP start.bat'') =
       ''/d/ASMP start.bat'' @ [CHR 0x0D, CHR 0x0A] @ ''/d/backup/ASMP start.bat'' @ [CHR 0x0D, CHR 0x0A]"
proof -
  have p1: "mset example_order = mset (getCommonDirectories (homedir two_match_host))"
    by (simp add: example_order_def host_defs)
  have p2: "mset example_order2 = mset (getCommonDirectories (homedir two_match_host))"
    by (simp add: example_order2_def host_defs)
  have m1: "filter (\<lambda>dir. \<not> exec_error (where_exec two_match_host dir ''ASMP start.bat'')
        \<and> str_trim (exec_stdout (where_exec two_match_host dir ''ASMP start.bat'')) \<noteq> [])
      example_order = [''/home/u/Downloads'', ''/home/u/Desktop'']"
    by (simp add: locate_defs host_defs)
  have m2: "filter (\<lambda>dir. \<not> exec_error (where_exec two_match_host dir ''ASMP start.bat'')
        \<and> str_trim (exec_stdout (where_exec two_match_host dir ''ASMP start.bat'')) \<noteq> [])
      example_order2 = [''/home/u/Desktop'', ''/home/u/Downloads'']"
    by (simp add: locate_defs host_defs)
  have q1: "2 \<le> length (filter (\<lambda>dir. \<not> exec_error (where_exec two_match_host dir ''ASMP start.bat'')
        \<and> str_trim (exec_stdout (where_exec two_match_host dir ''ASMP start.bat'')) \<noteq> [])
      example_order)"
    unfolding m1 by simp
  have q2: "2 \<le> length (filter (\<lambda>dir. \<not> exec_error (where_exec two_match_host dir ''ASMP start.bat'')
        \<and> str_trim (exec_stdout (where_exec two_match_host dir ''ASMP start.bat'')) \<noteq> [])
      example_order2)"
    unfolding m2 by simp
  have l: "(5::nat) < length example_order"
    by (simp add: example_order_def getCommonDirectories_def)
  have o1: "exec_stdout (where_exec two_match_host ''/home/u/Desktop'' ''ASMP start.bat'') =
       ''/a/ASMP start.bat'' @ [CHR 0x0D, CHR 0x0A] @ ''/a/old/ASMP start.bat'' @ [CHR 0x0D, CHR 0x0A]"
    by (simp add: host_defs)
  have o2: "exec_stdout (where_exec two_match_host ''/home/u/Downloads'' ''ASMP start.bat'') =
       ''/d/ASMP start.bat'' @ [CHR 0x0D, CHR 0x0A] @ ''/d/backup/ASMP start.bat'' @ [CHR 0x0D, CHR 0x0A]"
    by (simp add: host_defs)
  have d1: "dirname two_match_host (str_trim (takeWhile (\<lambda>c. c \<noteq> CHR 0x0A)
        (exec_stdout (where_exec two_match_host ''/home/u/Desktop'' ''ASMP start.bat'')))) = ''/a''"
    unfolding o1 by (simp add: str_trim_def is_space_def example_dirname_def host_defs)
  have d2: "dirname two_match_host (str_trim (takeWhile (\<lambda>c. c \<noteq> CHR 0x0A)
        (exec_stdout (where_exec two_match_host ''/home/u/Downloads'' ''ASMP start.bat'')))) = ''/d''"
    unfolding o2 by (simp add: str_trim_def is_space_def example_dirname_def host_defs)
  have r1: "findInCommonDirs two_match_host example_order ''ASMP start.bat'' = [Some ''/a'']"
    using last_completing_match_wins [OF p1 q1] unfolding m1 by (simp add: d1)
  have r2: "findInCommonDirs two_match_host example_order2 ''ASMP start.bat'' = [Some ''/d'']"
    using last_completing_match_wins [OF p2 q2] unfolding m2 by (simp add: d2)
  have "\<forall>k < length example_order.
      findInCommonDirs two_match_host (take k example_order) ''ASMP start.bat'' = []"
    using last_completing_match_wins [OF p1 q1] by (rule conjunct2)
  with l have r3: "findInCommonDirs two_match_host (take 5 example_order) ''ASMP start.bat'' = []"
    by blast
  from r1 r2 r3 o1 o2 show ?thesis
    by (simp only: simp_thms)
qed



section \<open>The router\<close>

lemma builds_foldl_and_then:
  "builds (foldl and_then a xs) = builds a @ concat (map builds xs)"
  by (induction xs arbitrary: a) (simp_all add: and_then_def)

lemma builds_findFileOnDisk_callback:
  "bd \<in> set (builds (findFileOnDisk_callback h deviceName fileName fullPath)) \<Longrightarrow>
   snd bd = deviceName"
  by (auto simp: findFileOnDisk_callback_def found_then_zip_def no_effect_def
      split: option.splits if_splits)

lemma builds_findInCommonDirs_callback:
  "bd \<in> set (builds (findInCommonDirs_callback h deviceName fileName directory)) \<Longrightarrow>
   snd bd = deviceName"
  by (auto simp: findInCommonDirs_callback_def found_then_zip_def no_effect_def and_then_def
      dest: builds_findFileOnDisk_callback split: option.splits if_splits)

lemma builds_handleDeviceNameAction:
  "bd \<in> set (builds (handleDeviceNameAction h completed deviceName)) \<Longrightarrow> snd bd = deviceName"
  by (auto simp: handleDeviceNameAction_def builds_foldl_and_then no_effect_def Let_def
      dest: builds_findInCommonDirs_callback)

text \<open>
  \<^verbatim>\<open>handleDeviceNameAction\<close> replies \<^verbatim>\<open>fileFound\<close> or \<^verbatim>\<open>fileNotFound\<close> and
  nothing else.
\<close>

lemma replies_foldl_and_then:
  "replies (foldl and_then a xs) = replies a @ concat (map replies xs)"
  by (induction xs arbitrary: a) (simp_all add: and_then_def)

lemma replies_findFileOnDisk_callback:
  "r \<in> set (replies (findFileOnDisk_callback h deviceName fileName fullPath)) \<Longrightarrow>
   (\<exists>d. r = FileFound fileName d) \<or> r = FileNotFound fileName"
  by (auto simp: findFileOnDisk_callback_def found_then_zip_def no_effect_def
      split: option.splits if_splits)

lemma replies_findInCommonDirs_callback:
  "r \<in> set (replies (findInCommonDirs_callback h deviceName fileName directory)) \<Longrightarrow>
   (\<exists>d. r = FileFound fileName d) \<or> r = FileNotFound fileName"
  by (auto simp: findInCommonDirs_callback_def found_then_zip_def no_effect_def and_then_def
      dest: replies_findFileOnDisk_callback split: option.splits if_splits)

lemma handleDeviceNameAction_replies:
  "r \<in> set (replies (handleDeviceNameAction h completed deviceName)) \<Longrightarrow>
   (\<exists>d. r = FileFound ''ASMP start.bat'' d) \<or> r = FileNotFound ''ASMP start.bat''"
  by (auto simp: handleDeviceNameAction_def replies_foldl_and_then no_effect_def Let_def
      dest: replies_findInCommonDirs_callback)

text \<open>The definitions a run of the handler on a concrete host unfolds.\<close>

lemmas router_defs = handleWebSocketMessage_def handleDeviceNameAction_def
  findInCommonDirs_callback_def findFileOnDisk_callback_def found_then_zip_def
  findFileOnDisk_def and_then_def no_effect_def device_request_def direct_path_def

text \<open>
  C5. On the installation with an unreadable file in \<^verbatim>\<open>/d/out\<close>, the device request
  for \<^verbatim>\<open>DEV1\<close> is answered with \<^verbatim>\<open>fileFound\<close> alone: the build that follows fails
  (nothing is sent to the clients) and the originating client gets no error status. On the
  readable installation the same request is answered with \<^verbatim>\<open>fileFound\<close> alone too:
  the archive is sent to the clients and no success status follows.
\<close>

theorem device_request_gets_no_status:
  "\<not> success (createAndSendZip unreadable_host (JStr ''/d'') (JStr ''DEV1''))
   \<and> handleWebSocketMessage unreadable_host example_order (device_request (JStr ''DEV1'')) =
     \<lparr>replies = [FileFound ''ASMP start.bat'' ''/d''],
      broadcasts = [],
      builds = [(JStr ''/d'', JStr ''DEV1'')],
      locates = 1,
      scans = 0\<rparr>
   \<and> handleWebSocketMessage example_host example_order (device_request (JStr ''DEV1'')) =
     \<lparr>replies = [FileFound ''ASMP start.bat'' ''/d''],
      broadcasts = [[ArchiveFile ''/d/out/DEV1-a.txt'' ''out/DEV1-a.txt'',
                     ArchiveFile ''/d/temp/x.net'' ''temp/x.net'']],
      builds = [(JStr ''/d'', JStr ''DEV1'')],
      locates = 1,
      scans = 0\<rparr>"
proof -
  have l1: "findInCommonDirs unreadable_host example_order ''ASMP start.bat'' = [Some ''/d'']"
    by (simp add: locate_defs host_defs)
  have l2: "findInCommonDirs example_host example_order ''ASMP start.bat'' = [Some ''/d'']"
    by (simp add: locate_defs host_defs)
  have z1: "createAndSendZip unreadable_host (JStr ''/d'') (JStr ''DEV1'') =
      \<lparr>success = False, message = ''EACCES'', sent = []\<rparr>"
    by (simp add: eval_defs host_defs)
  have z2: "sent (createAndSendZip example_host (JStr ''/d'') (JStr ''DEV1'')) =
      [[ArchiveFile ''/d/out/DEV1-a.txt'' ''out/DEV1-a.txt'',
        ArchiveFile ''/d/temp/x.net'' ''temp/x.net'']]"
    by (simp add: eval_defs host_defs)
  show ?thesis
    by (simp add: router_defs l1 l2 z1 z2)
qed

text \<open>
  C7, as stated, fails on the payload \<^verbatim>\<open>null\<close>: it parses, it has neither shape, and
  reading \<^verbatim>\<open>data.type\<close> throws, so the client gets an error reply.
\<close>

theorem null_payload_counterexample:
  "replies (handleWebSocketMessage example_host example_order ParsedNull) =
     [StatusError null_read_message]"
  by (simp add: handleWebSocketMessage_def no_effect_def)

text \<open>
  C7, amended. A message that \<^verbatim>\<open>JSON.parse\<close> rejects, and the message that parses to
  null, get one error reply and have no other effect. Every other parsed payload that is
  neither a direct-path message (\<^verbatim>\<open>type\<close> is \<^verbatim>\<open>filePath\<close>) nor a device request
  (\<^verbatim>\<open>action\<close> is \<^verbatim>\<open>sendDeviceName\<close> with a truthy \<^verbatim>\<open>deviceName\<close>) has no effect
  at all.
\<close>

theorem unparseable_and_unrecognized:
  "handleWebSocketMessage h completed (ParseThrows e) =
     \<lparr>replies = [StatusError (error_message e)], broadcasts = [], builds = [],
      locates = 0, scans = 0\<rparr>
   \<and> handleWebSocketMessage h completed ParsedNull =
     \<lparr>replies = [StatusError null_read_message], broadcasts = [], builds = [],
      locates = 0, scans = 0\<rparr>
   \<and> (msg_type data \<noteq> JStr ''filePath''
        \<and> \<not> (msg_action data = JStr ''sendDeviceName'' \<and> truthy (msg_deviceName data))
      \<longrightarrow> handleWebSocketMessage h completed (ParsedValue data) =
     \<lparr>replies = [], broadcasts = [], builds = [], locates = 0, scans = 0\<rparr>)"
  by (simp add: handleWebSocketMessage_def no_effect_def)

theorem unparseable_and_unrecognized_witness:
  "handleWebSocketMessage example_host example_order (ParseThrows (SyntaxError ''Unexpected token'')) =
     \<lparr>replies = [StatusError ''Unexpected token''], broadcasts = [], builds = [],
      locates = 0, scans = 0\<rparr>
   \<and> handleWebSocketMessage example_host example_order ParsedNull =
     \<lparr>replies = [StatusError null_read_message], broadcasts = [], builds = [],
      locates = 0, scans = 0\<rparr>
   \<and> handleWebSocketMessage example_host example_order
       (ParsedValue \<lparr>msg_type = JStr ''ping'', msg_action = JUndefined,
          msg_deviceName = JUndefined, msg_filePath = JUndefined\<rparr>) =
     \<lparr>replies = [], broadcasts = [], builds = [], locates = 0, scans = 0\<rparr>"
  using unparseable_and_unrecognized [of example_host example_order
      "SyntaxError ''Unexpected token''"
      "\<lparr>msg_type = JStr ''ping'', msg_action = JUndefined,
        msg_deviceName = JUndefined, msg_filePath = JUndefined\<rparr>"]
  by simp

text \<open>
  C10. A parsed message that is not a direct-path message and whose \<^verbatim>\<open>deviceName\<close> is
  absent, null or the empty string has no effect: no reply, no search, no build; and every
  build that a message other than a direct-path message starts has a truthy device name, so
  the empty string never reaches \<^verbatim>\<open>createAndSendZip\<close> that way.
\<close>

theorem falsy_device_name_dropped:
  assumes "msg_type data \<noteq> JStr ''filePath''"
  shows "(msg_deviceName data \<in> {JUndefined, JNull, JStr ''''} \<longrightarrow>
          handleWebSocketMessage h completed (ParsedValue data) =
            \<lparr>replies = [], broadcasts = [], builds = [], locates = 0, scans = 0\<rparr>)
       \<and> (\<forall>bd \<in> set (builds (handleWebSocketMessage h completed (ParsedValue data))).
            truthy (snd bd) \<and> snd bd \<noteq> JStr '''')"
proof -
  have "handleWebSocketMessage h completed (ParsedValue data) =
            \<lparr>replies = [], broadcasts = [], builds = [], locates = 0, scans = 0\<rparr>"
    if "msg_deviceName data \<in> {JUndefined, JNull, JStr ''''}"
    using assms that by (auto simp: handleWebSocketMessage_def no_effect_def)
  moreover have "truthy (snd bd) \<and> snd bd \<noteq> JStr ''''"
    if bd: "bd \<in> set (builds (handleWebSocketMessage h completed (ParsedValue data)))" for bd
  proof (cases "msg_action data = JStr ''sendDeviceName'' \<and> truthy (msg_deviceName data)")
    case True
    with assms bd have "bd \<in> set (builds (handleDeviceNameAction h completed (msg_deviceName data)))"
      by (simp add: handleWebSocketMessage_def)
    then have "snd bd = msg_deviceName data"
      by (rule builds_handleDeviceNameAction)
    with True show ?thesis by auto
  next
    case False
    with assms bd show ?thesis
      by (auto simp: handleWebSocketMessage_def no_effect_def)
  qed
  ultimately show ?thesis by blast
qed

theorem falsy_device_name_dropped_witness:
  "handleWebSocketMessage example_host example_order (device_request (JStr '''')) =
     \<lparr>replies = [], broadcasts = [], builds = [], locates = 0, scans = 0\<rparr>
   \<and> handleWebSocketMessage example_host example_order (device_request JNull) =
     \<lparr>replies = [], broadcasts = [], builds = [], locates = 0, scans = 0\<rparr>
   \<and> handleWebSocketMessage example_host example_order (device_request JUndefined) =
     \<lparr>replies = [], broadcasts = [], builds = [], locates = 0, scans = 0\<rparr>"
proof -
  have t: "msg_type \<lparr>msg_type = JUndefined, msg_action = JStr ''sendDeviceName'',
       msg_deviceName = d, msg_filePath = JUndefined\<rparr> \<noteq> JStr ''filePath''" for d
    by simp
  from falsy_device_name_dropped [OF t [of "JStr ''''"], of example_host example_order]
    falsy_device_name_dropped [OF t [of JNull], of example_host example_order]
    falsy_device_name_dropped [OF t [of JUndefined], of example_host example_order]
  show ?thesis
    unfolding device_request_def by simp
qed

end
